theory Spec2Isabelle
  imports Complex_Main "HOL-Library.Sublist"
begin

section \<open>Data model of \<open>sentiment_model.py\<close>\<close>

text \<open>
  A Python \<open>str\<close> is the sequence of its Unicode code points, and a code point is an
  integer. \<open>str\<close> turns an ASCII literal of this theory into the Python string with the
  same characters.
\<close>

type_synonym pystr = "int list"

definition str :: "string \<Rightarrow> pystr" where
  "str s = map of_char s"

text \<open>
  The three Persian string literals that the analyzer returns as labels. The source
  writes them as the literals U+0645 U+062B U+0628 U+062A (positive),
  U+0645 U+0646 U+0641 U+06CC (negative) and U+062E U+0646 U+062B U+06CC (neutral);
  \<open>persian\<close> gives the code points of each literal.
\<close>

datatype category = POSITIVE | NEGATIVE | NEUTRAL

fun persian :: "category \<Rightarrow> pystr" where
  "persian POSITIVE = [0x645, 0x62B, 0x628, 0x62A]"
| "persian NEGATIVE = [0x645, 0x646, 0x641, 0x6CC]"
| "persian NEUTRAL = [0x62E, 0x646, 0x62B, 0x6CC]"

text \<open>
  One entry of the pipeline's output for a text: the dictionary
  \<open>{"label": ..., "score": ...}\<close>. The score is a Python float that the code only
  compares (\<open>>=\<close>, \<open>>\<close>, \<open>max\<close>) and never computes with; on the floats that are
  numbers these comparisons are exact, so the score is modelled by the real it denotes.
  NaN is not a probability and is outside the model.
\<close>

record score_dict =
  dict_label :: pystr
  dict_score :: real

text \<open>The dataclass \<open>SentimentResult\<close>.\<close>

record SentimentResult =
  label :: category
  score :: real
  latency_ms :: real

text \<open>
  The exceptions of the code. The first four are all instances of Python's
  \<open>ValueError\<close>: the two that the analyzer raises itself (lines 124 and 157), the
  one of the builtin \<open>max\<close> on an empty list (line 91) and the one of \<open>range\<close>
  with step zero (line 160). \<open>ClassifierFailure\<close> stands for whatever the Hugging Face
  pipeline raises.
\<close>

datatype error =
    EmptyInputText
  | NoValidTexts
  | MaxOfEmpty
  | RangeStepZero
  | ClassifierFailure nat

section \<open>Strings\<close>

text \<open>
  \<open>str.upper()\<close> replaces every character by its full uppercase mapping, which may be
  several characters long (U+00DF becomes \<open>SS\<close>) and does not depend on the neighbours
  of the character. On the ASCII range the mapping is fixed: the letters \<open>a\<close> to \<open>z\<close>
  go to \<open>A\<close> to \<open>Z\<close> and every other character stays. From U+0080 on Python takes the
  mapping from the Unicode database of its runtime, which is not part of the repository;
  it is the parameter \<open>unicode\<close> of the model, a function from a code point to the code
  points of its uppercase mapping.
\<close>

type_synonym case_table = "int \<Rightarrow> int list"

definition ascii_upper :: "int \<Rightarrow> int" where
  "ascii_upper c = (if 97 \<le> c \<and> c \<le> 122 then c - 32 else c)"

definition to_upper_full :: "case_table \<Rightarrow> int \<Rightarrow> int list" where
  "to_upper_full unicode c = (if c < 128 then [ascii_upper c] else unicode c)"

definition upper :: "case_table \<Rightarrow> pystr \<Rightarrow> pystr" where
  "upper unicode s = concat (map (to_upper_full unicode) s)"

text \<open>
  Python's \<open>needle in haystack\<close> on strings: some position of the haystack, its end
  included, is followed by the needle.
\<close>

definition py_in :: "pystr \<Rightarrow> pystr \<Rightarrow> bool" where
  "py_in needle haystack =
     list_ex (\<lambda>i. take (length needle) (drop i haystack) = needle) [0 ..< Suc (length haystack)]"

section \<open>The analyzer\<close>

text \<open>
  The fields of \<open>SentimentAnalyzer\<close> that its methods read or write.
  \<open>pipeline_loaded\<close> is \<open>self._pipeline is not None\<close>. \<open>invocations\<close> is a ghost
  field: the argument of every call of the pipeline made so far, oldest first (a single
  text is logged as a one-element list).
\<close>

record analyzer =
  positive_threshold :: real
  negative_threshold :: real
  pipeline_loaded :: bool
  invocations :: "pystr list list"

definition map_label_to_persian :: "case_table \<Rightarrow> pystr \<Rightarrow> category" where
  "map_label_to_persian unicode lbl =
     (let up = upper unicode lbl in
      if py_in (str ''HAPPY'') up \<or> py_in (str ''POS'') up then POSITIVE
      else if py_in (str ''SAD'') up \<or> py_in (str ''NEG'') up then NEGATIVE
      else NEUTRAL)"

text \<open>
  The builtin \<open>max(scores, key=lambda x: float(x["score"]))\<close>: the first entry whose key
  no later entry exceeds; \<open>ValueError\<close> on the empty list.
\<close>

fun max_from :: "score_dict \<Rightarrow> score_dict list \<Rightarrow> score_dict" where
  "max_from best [] = best"
| "max_from best (x # xs) = max_from (if dict_score x > dict_score best then x else best) xs"

definition py_max :: "score_dict list \<Rightarrow> error + score_dict" where
  "py_max scores = (case scores of [] \<Rightarrow> Inl MaxOfEmpty | x # xs \<Rightarrow> Inr (max_from x xs))"

definition derive_three_class ::
  "case_table \<Rightarrow> analyzer \<Rightarrow> score_dict list \<Rightarrow> error + category \<times> real" where
  "derive_three_class unicode self scores =
     (if length scores < 2 then
        (case py_max scores of
           Inl e \<Rightarrow> Inl e
         | Inr best \<Rightarrow> Inr (map_label_to_persian unicode (dict_label best), dict_score best))
      else
        let s0 = scores ! 0; s1 = scores ! 1;
            label0 = upper unicode (dict_label s0);
            p0 = dict_score s0;
            p1 = dict_score s1;
            (pos_prob, neg_prob) =
               (if py_in (str ''HAPPY'') label0 \<or> py_in (str ''POS'') label0
                then (p0, p1) else (p1, p0))
        in if pos_prob \<ge> positive_threshold self \<and> pos_prob \<ge> neg_prob then
             Inr (POSITIVE, pos_prob)
           else if neg_prob \<ge> negative_threshold self \<and> neg_prob > pos_prob then
             Inr (NEGATIVE, neg_prob)
           else Inr (NEUTRAL, max pos_prob neg_prob))"

text \<open>
  The two probabilities that lines 95 to 104 name \<open>pos_prob\<close> and \<open>neg_prob\<close>: the
  first entry's score is the positive one exactly when its uppercased label contains
  \<open>HAPPY\<close> or \<open>POS\<close>; the second entry's label is never read.
\<close>

definition pos_prob :: "case_table \<Rightarrow> score_dict list \<Rightarrow> real" where
  "pos_prob unicode scores =
     (let label0 = upper unicode (dict_label (scores ! 0)) in
      if py_in (str ''HAPPY'') label0 \<or> py_in (str ''POS'') label0
      then dict_score (scores ! 0) else dict_score (scores ! 1))"

definition neg_prob :: "case_table \<Rightarrow> score_dict list \<Rightarrow> real" where
  "neg_prob unicode scores =
     (let label0 = upper unicode (dict_label (scores ! 0)) in
      if py_in (str ''HAPPY'') label0 \<or> py_in (str ''POS'') label0
      then dict_score (scores ! 1) else dict_score (scores ! 0))"

section \<open>Input validation\<close>

text \<open>
  \<open>str.strip()\<close> removes the leading and the trailing whitespace. The whitespace
  characters of a Python string are the code points below: the ASCII controls 9 to 13
  and 28 to 31, the space, U+0085, U+00A0, U+1680, U+2000 to U+200A, U+2028, U+2029,
  U+202F, U+205F and U+3000.
\<close>

definition whitespace :: "int list" where
  "whitespace =
     [0x09, 0x0A, 0x0B, 0x0C, 0x0D, 0x1C, 0x1D, 0x1E, 0x1F, 0x20, 0x85, 0xA0, 0x1680,
      0x2000, 0x2001, 0x2002, 0x2003, 0x2004, 0x2005, 0x2006, 0x2007, 0x2008, 0x2009, 0x200A,
      0x2028, 0x2029, 0x202F, 0x205F, 0x3000]"

definition isspace :: "int \<Rightarrow> bool" where
  "isspace c = (c \<in> set whitespace)"

definition strip :: "pystr \<Rightarrow> pystr" where
  "strip s = rev (dropWhile isspace (rev (dropWhile isspace s)))"

text \<open>The test \<open>not text or not text.strip()\<close> of line 123, negated in line 155.\<close>

definition blank :: "pystr \<Rightarrow> bool" where
  "blank text = (text = [] \<or> strip text = [])"

section \<open>The pipeline\<close>

text \<open>
  The Hugging Face pipeline is outside the repository. It is a parameter of the model:
  \<open>from_pretrained\<close> is the loading of tokenizer and model (\<open>None\<close> when it succeeds),
  \<open>call_text\<close> the call on one string and \<open>call_batch\<close> the call on a list of strings,
  each with the \<open>max_length\<close> it is given. A call either raises (\<open>Inl\<close>, with an opaque
  code) or returns its output together with the seconds that \<open>time.perf_counter\<close>
  measures around it.
\<close>

record port =
  from_pretrained :: "nat option"
  call_text :: "pystr \<Rightarrow> int \<Rightarrow> nat + score_dict list \<times> real"
  call_batch :: "pystr list \<Rightarrow> int \<Rightarrow> nat + score_dict list list \<times> real"

text \<open>The property \<open>pipeline\<close>: loads on first use and caches.\<close>

definition pipeline :: "port \<Rightarrow> analyzer \<Rightarrow> error + analyzer" where
  "pipeline p self =
     (if pipeline_loaded self then Inr self
      else case from_pretrained p of
             Some c \<Rightarrow> Inl (ClassifierFailure c)
           | None \<Rightarrow> Inr (self\<lparr>pipeline_loaded := True\<rparr>))"

definition log_call :: "pystr list \<Rightarrow> analyzer \<Rightarrow> analyzer" where
  "log_call arg self = self\<lparr>invocations := invocations self @ [arg]\<rparr>"

section \<open>Single prediction\<close>

definition predict ::
  "case_table \<Rightarrow> port \<Rightarrow> analyzer \<Rightarrow> pystr \<Rightarrow> int \<Rightarrow> (error + SentimentResult) \<times> analyzer" where
  "predict unicode p self text max_length =
     (if blank text then (Inl EmptyInputText, self)
      else case pipeline p self of
        Inl e \<Rightarrow> (Inl e, self)
      | Inr self1 \<Rightarrow>
          let self2 = log_call [text] self1 in
          (case call_text p text max_length of
             Inl c \<Rightarrow> (Inl (ClassifierFailure c), self2)
           | Inr (outputs, elapsed) \<Rightarrow>
               let latency = elapsed * 1000 in
               (case derive_three_class unicode self2 outputs of
                  Inl e \<Rightarrow> (Inl e, self2)
                | Inr (lbl, sc) \<Rightarrow>
                    (Inr \<lparr>label = lbl, score = sc, latency_ms = latency\<rparr>, self2))))"

section \<open>Batch prediction\<close>

text \<open>
  \<open>range(start, stop, step)\<close> as the list of the indices it yields; step zero raises
  \<open>ValueError\<close>, and a step that points away from \<open>stop\<close> yields nothing.
\<close>

definition py_range :: "int \<Rightarrow> int \<Rightarrow> int \<Rightarrow> error + int list" where
  "py_range start stop step =
     (if step = 0 then Inl RangeStepZero
      else if step > 0 then
        Inr (map (\<lambda>k. start + int k * step) [0 ..< nat ((stop - start + step - 1) div step)])
      else
        Inr (map (\<lambda>k. start + int k * step) [0 ..< nat ((start - stop - step - 1) div (- step))]))"

text \<open>
  The slice \<open>xs[i : j]\<close>: a negative bound counts from the end, and both bounds are
  clamped to the list.
\<close>

definition slice_bound :: "nat \<Rightarrow> int \<Rightarrow> nat" where
  "slice_bound n i = (if i < 0 then nat (max 0 (int n + i)) else min n (nat i))"

definition py_slice :: "'a list \<Rightarrow> int \<Rightarrow> int \<Rightarrow> 'a list" where
  "py_slice xs i j =
     (let a = slice_bound (length xs) i; b = slice_bound (length xs) j
      in take (b - a) (drop a xs))"

text \<open>The inner loop \<open>for out in outputs\<close> (lines 171 to 179).\<close>

fun derive_all ::
  "case_table \<Rightarrow> analyzer \<Rightarrow> real \<Rightarrow> score_dict list list \<Rightarrow> SentimentResult list
     \<Rightarrow> error + SentimentResult list" where
  "derive_all unicode self per_item_latency [] results = Inr results"
| "derive_all unicode self per_item_latency (out # outs) results =
     (case derive_three_class unicode self out of
        Inl e \<Rightarrow> Inl e
      | Inr (lbl, sc) \<Rightarrow>
          derive_all unicode self per_item_latency outs
            (results @ [\<lparr>label = lbl, score = sc, latency_ms = per_item_latency\<rparr>]))"

text \<open>The outer loop \<open>for i in range(...)\<close> (lines 160 to 179), over the indices of the range.\<close>

fun batch_loop ::
  "case_table \<Rightarrow> port \<Rightarrow> int \<Rightarrow> int \<Rightarrow> pystr list \<Rightarrow> int list \<Rightarrow> analyzer
     \<Rightarrow> SentimentResult list \<Rightarrow> (error + SentimentResult list) \<times> analyzer" where
  "batch_loop unicode p max_length batch_size clean_texts [] self results = (Inr results, self)"
| "batch_loop unicode p max_length batch_size clean_texts (i # is) self results =
     (let batch = py_slice clean_texts i (i + batch_size) in
      case pipeline p self of
        Inl e \<Rightarrow> (Inl e, self)
      | Inr self1 \<Rightarrow>
          let self2 = log_call batch self1 in
          (case call_batch p batch max_length of
             Inl c \<Rightarrow> (Inl (ClassifierFailure c), self2)
           | Inr (outputs, elapsed) \<Rightarrow>
               let batch_latency_ms = elapsed * 1000;
                   per_item_latency = batch_latency_ms / real (max (length outputs) 1)
               in (case derive_all unicode self2 per_item_latency outputs results of
                     Inl e \<Rightarrow> (Inl e, self2)
                   | Inr results' \<Rightarrow>
                       batch_loop unicode p max_length batch_size clean_texts is self2 results')))"

definition batch_predict ::
  "case_table \<Rightarrow> port \<Rightarrow> analyzer \<Rightarrow> pystr list \<Rightarrow> int \<Rightarrow> int
     \<Rightarrow> (error + SentimentResult list) \<times> analyzer" where
  "batch_predict unicode p self texts max_length batch_size =
     (let clean_texts = filter (\<lambda>t. \<not> blank t) texts in
      if clean_texts = [] then (Inl NoValidTexts, self)
      else case py_range 0 (int (length clean_texts)) batch_size of
        Inl e \<Rightarrow> (Inl e, self)
      | Inr indices \<Rightarrow>
          batch_loop unicode p max_length batch_size clean_texts indices self [])"

section \<open>The contract of the pipeline\<close>

text \<open>
  What the analyzer expects of the pipeline on a list of texts (section 6 of the
  specification): loading succeeds, and a call with this \<open>max_length\<close> returns one
  output per text, in the order of the texts, each output being what the classifier
  \<open>clf\<close> says of that text and having at least one entry.
\<close>

definition honours :: "port \<Rightarrow> int \<Rightarrow> (pystr \<Rightarrow> score_dict list) \<Rightarrow> bool" where
  "honours p max_length clf \<longleftrightarrow>
     from_pretrained p = None \<and>
     (\<forall>batch. \<exists>elapsed. call_batch p batch max_length = Inr (map clf batch, elapsed)) \<and>
     (\<forall>t. clf t \<noteq> [])"

section \<open>Example inputs\<close>

text \<open>
  An instance of the case table for the examples. It has Python's entries for U+00DF
  (\<open>SS\<close>) and U+017F (\<open>S\<close>) and maps every other code point to itself, which is not
  Python's table in general: the labels of the examples contain no other code point from
  U+0080 on, and the theorems below hold for every table.
\<close>

definition example_table :: case_table where
  "example_table c = (if c = 0xDF then [0x53, 0x53] else if c = 0x17F then [0x53] else [c])"

definition happy_sad :: "real \<Rightarrow> real \<Rightarrow> score_dict list" where
  "happy_sad p q =
     [\<lparr>dict_label = str ''HAPPY'', dict_score = p\<rparr>, \<lparr>dict_label = str ''SAD'', dict_score = q\<rparr>]"

definition sad_happy :: "real \<Rightarrow> real \<Rightarrow> score_dict list" where
  "sad_happy p q =
     [\<lparr>dict_label = str ''SAD'', dict_score = p\<rparr>, \<lparr>dict_label = str ''HAPPY'', dict_score = q\<rparr>]"

definition fresh :: "real \<Rightarrow> analyzer" where
  "fresh threshold =
     \<lparr>positive_threshold = threshold, negative_threshold = threshold,
      pipeline_loaded = False, invocations = []\<rparr>"

definition only_happy :: "score_dict list" where
  "only_happy = [\<lparr>dict_label = str ''HAPPY'', dict_score = 99/100\<rparr>]"

definition example_clf :: "pystr \<Rightarrow> score_dict list" where
  "example_clf t =
     (if py_in (str ''bad'') t then sad_happy (8/10) (2/10) else happy_sad (9/10) (1/10))"

definition example_port :: port where
  "example_port =
     \<lparr>from_pretrained = None,
      call_text = (\<lambda>t max_length. Inr (example_clf t, 2/1000)),
      call_batch = (\<lambda>ts max_length. Inr (map example_clf ts, 4/1000))\<rparr>"


text \<open>The text that is one no-break space, and a text of three kinds of whitespace.\<close>

definition nbsp :: pystr where
  "nbsp = [0xA0]"

definition spaces :: pystr where
  "spaces = [0x20, 0xA0, 0x3000]"

section \<open>The decision rule\<close>

lemma persian_inj: "persian c = persian d \<Longrightarrow> c = d"
  by (cases c; cases d) simp_all

lemma derive_three_class_two:
  assumes "2 \<le> length scores"
  shows "derive_three_class u self scores =
     (if positive_threshold self \<le> pos_prob u scores \<and> neg_prob u scores \<le> pos_prob u scores
      then Inr (POSITIVE, pos_prob u scores)
      else if negative_threshold self \<le> neg_prob u scores \<and> pos_prob u scores < neg_prob u scores
      then Inr (NEGATIVE, neg_prob u scores)
      else Inr (NEUTRAL, max (pos_prob u scores) (neg_prob u scores)))"
  using assms by (simp add: derive_three_class_def pos_prob_def neg_prob_def Let_def)

lemma happy_sad_probs: "pos_prob u (happy_sad p q) = p" "neg_prob u (happy_sad p q) = q"
proof -
  have "py_in (str ''HAPPY'') (upper u (str ''HAPPY''))" by code_simp
  then show "pos_prob u (happy_sad p q) = p" "neg_prob u (happy_sad p q) = q"
    by (simp_all add: pos_prob_def neg_prob_def happy_sad_def)
qed

lemma sad_happy_probs: "pos_prob u (sad_happy p q) = q" "neg_prob u (sad_happy p q) = p"
proof -
  have "\<not> py_in (str ''HAPPY'') (upper u (str ''SAD''))" "\<not> py_in (str ''POS'') (upper u (str ''SAD''))" by code_simp+
  then show "pos_prob u (sad_happy p q) = q" "neg_prob u (sad_happy p q) = p"
    by (simp_all add: pos_prob_def neg_prob_def sad_happy_def)
qed

lemma pos_neg_are_first_two:
  "max (pos_prob u scores) (neg_prob u scores) = max (dict_score (scores ! 0)) (dict_score (scores ! 1))"
  by (simp add: pos_prob_def neg_prob_def Let_def max.commute)

lemma max_from_spec:
  "max_from best xs \<in> set (best # xs) \<and>
   (\<forall>x \<in> set (best # xs). dict_score x \<le> dict_score (max_from best xs))"
proof (induction xs arbitrary: best)
  case Nil
  show ?case by simp
next
  case (Cons y ys)
  let ?b = "if dict_score y > dict_score best then y else best"
  from Cons.IH [of ?b] show ?case
    by (auto split: if_splits)
qed

lemma py_max_spec:
  assumes "py_max scores = Inr best"
  shows "best \<in> set scores \<and> (\<forall>x \<in> set scores. dict_score x \<le> dict_score best)"
proof (cases scores)
  case Nil
  with assms show ?thesis by (simp add: py_max_def)
next
  case (Cons x xs)
  with assms have "best = max_from x xs" by (simp add: py_max_def)
  with max_from_spec [of x xs] Cons show ?thesis by simp
qed

lemma py_max_nonempty: "scores \<noteq> [] \<Longrightarrow> \<exists>best. py_max scores = Inr best"
  by (cases scores) (simp_all add: py_max_def)

lemma derive_three_class_returns:
  assumes "scores \<noteq> []"
  shows "\<exists>c conf. derive_three_class u self scores = Inr (c, conf)"
proof (cases "length scores < 2")
  case True
  from py_max_nonempty [OF assms] obtain best where "py_max scores = Inr best" ..
  with True show ?thesis by (simp add: derive_three_class_def)
next
  case False
  then have "2 \<le> length scores" by simp
  then show ?thesis by (simp add: derive_three_class_two)
qed

text \<open>
  C1. Whenever the list has at least two entries, \<open>pos_prob\<close> reaches the positive
  threshold and \<open>pos_prob\<close> is at least \<open>neg_prob\<close>, the rule returns the positive label
  with confidence \<open>pos_prob\<close>, whatever the thresholds are. In particular at an exact tie
  \<open>pos_prob = neg_prob = threshold\<close> the result is positive: the first test decides and
  the negative test is never reached.
\<close>

theorem positive_rule:
  "(2 \<le> length scores \<and> positive_threshold self \<le> pos_prob u scores \<and> neg_prob u scores \<le> pos_prob u scores
      \<longrightarrow> derive_three_class u self scores = Inr (POSITIVE, pos_prob u scores)) \<and>
   (2 \<le> length scores \<and> pos_prob u scores = neg_prob u scores \<and> pos_prob u scores = positive_threshold self
      \<longrightarrow> derive_three_class u self scores = Inr (POSITIVE, pos_prob u scores))"
  by (simp add: derive_three_class_two)

theorem positive_rule_witness:
  "2 \<le> length (happy_sad (1/2) (1/2)) \<and>
   pos_prob example_table (happy_sad (1/2) (1/2)) = neg_prob example_table (happy_sad (1/2) (1/2)) \<and>
   pos_prob example_table (happy_sad (1/2) (1/2)) = positive_threshold (fresh (1/2)) \<and>
   derive_three_class example_table (fresh (1/2)) (happy_sad (1/2) (1/2)) = Inr (POSITIVE, 1/2)"
proof -
  have l: "length (happy_sad (1/2) (1/2)) = 2" by (simp add: happy_sad_def)
  have t: "positive_threshold (fresh (1/2)) = 1/2" by (simp add: fresh_def)
  from positive_rule [where scores = "happy_sad (1/2) (1/2)" and self = "fresh (1/2)"
      and u = example_table] l t show ?thesis
    by (simp add: happy_sad_probs)
qed

text \<open>
  C2. Whenever the list has at least two entries, \<open>neg_prob\<close> reaches the negative
  threshold and \<open>neg_prob\<close> is strictly greater than \<open>pos_prob\<close>, the positive test has
  not fired (it needs \<open>pos_prob \<ge> neg_prob\<close>) and the rule returns the negative label
  with confidence \<open>neg_prob\<close>.
\<close>

theorem negative_rule:
  assumes "2 \<le> length scores"
    and "negative_threshold self \<le> neg_prob u scores"
    and "pos_prob u scores < neg_prob u scores"
  shows "\<not> (positive_threshold self \<le> pos_prob u scores \<and> neg_prob u scores \<le> pos_prob u scores) \<and>
         derive_three_class u self scores = Inr (NEGATIVE, neg_prob u scores)"
  using assms by (simp add: derive_three_class_two)

theorem negative_rule_witness:
  "2 \<le> length (sad_happy (8/10) (2/10)) \<and>
   negative_threshold (fresh (65/100)) \<le> neg_prob example_table (sad_happy (8/10) (2/10)) \<and>
   pos_prob example_table (sad_happy (8/10) (2/10)) < neg_prob example_table (sad_happy (8/10) (2/10)) \<and>
   derive_three_class example_table (fresh (65/100)) (sad_happy (8/10) (2/10)) = Inr (NEGATIVE, 8/10)"
proof -
  have l: "2 \<le> length (sad_happy (8/10) (2/10))" by (simp add: sad_happy_def)
  have t: "negative_threshold (fresh (65/100)) \<le> neg_prob example_table (sad_happy (8/10) (2/10))"
    by (simp add: fresh_def sad_happy_probs)
  have c: "pos_prob example_table (sad_happy (8/10) (2/10)) < neg_prob example_table (sad_happy (8/10) (2/10))"
    by (simp add: sad_happy_probs)
  from negative_rule [OF l t c] l t c show ?thesis
    by (simp add: sad_happy_probs)
qed

text \<open>
  C3. Whenever the list has at least two entries and neither the positive test nor the
  negative test fires, the rule returns the neutral label with confidence
  \<open>max pos_prob neg_prob\<close>.
\<close>

theorem neutral_rule:
  assumes "2 \<le> length scores"
    and "\<not> (positive_threshold self \<le> pos_prob u scores \<and> neg_prob u scores \<le> pos_prob u scores)"
    and "\<not> (negative_threshold self \<le> neg_prob u scores \<and> pos_prob u scores < neg_prob u scores)"
  shows "derive_three_class u self scores = Inr (NEUTRAL, max (pos_prob u scores) (neg_prob u scores))"
  using assms by (simp add: derive_three_class_two)

theorem neutral_rule_witness:
  "2 \<le> length (happy_sad (1/2) (1/2)) \<and>
   \<not> (positive_threshold (fresh (65/100)) \<le> pos_prob example_table (happy_sad (1/2) (1/2)) \<and>
      neg_prob example_table (happy_sad (1/2) (1/2)) \<le> pos_prob example_table (happy_sad (1/2) (1/2))) \<and>
   \<not> (negative_threshold (fresh (65/100)) \<le> neg_prob example_table (happy_sad (1/2) (1/2)) \<and>
      pos_prob example_table (happy_sad (1/2) (1/2)) < neg_prob example_table (happy_sad (1/2) (1/2))) \<and>
   derive_three_class example_table (fresh (65/100)) (happy_sad (1/2) (1/2)) = Inr (NEUTRAL, 1/2)"
proof -
  have l: "2 \<le> length (happy_sad (1/2) (1/2))" by (simp add: happy_sad_def)
  have a: "\<not> (positive_threshold (fresh (65/100)) \<le> pos_prob example_table (happy_sad (1/2) (1/2)) \<and>
      neg_prob example_table (happy_sad (1/2) (1/2)) \<le> pos_prob example_table (happy_sad (1/2) (1/2)))"
    by (simp add: fresh_def happy_sad_probs)
  have b: "\<not> (negative_threshold (fresh (65/100)) \<le> neg_prob example_table (happy_sad (1/2) (1/2)) \<and>
      pos_prob example_table (happy_sad (1/2) (1/2)) < neg_prob example_table (happy_sad (1/2) (1/2)))"
    by (simp add: happy_sad_probs)
  from neutral_rule [OF l a b] l a b show ?thesis
    by (simp add: happy_sad_probs)
qed

text \<open>
  C7. On a list with fewer than two entries that is a classifier output (at least one
  entry), the rule takes an entry of maximal score and returns the mapping of its label
  together with its score; the thresholds play no part. The single entry
  \<open>(HAPPY, 0.99)\<close> gives the positive label with confidence 0.99.
\<close>

theorem fallback_rule:
  assumes "length scores < 2" and "scores \<noteq> []"
  shows "\<exists>best. best \<in> set scores \<and> (\<forall>x \<in> set scores. dict_score x \<le> dict_score best) \<and>
           derive_three_class u self scores =
             Inr (map_label_to_persian u (dict_label best), dict_score best)"
proof -
  from py_max_nonempty [OF assms(2)] obtain best where b: "py_max scores = Inr best" ..
  from assms(1) b have "derive_three_class u self scores =
      Inr (map_label_to_persian u (dict_label best), dict_score best)"
    by (simp add: derive_three_class_def)
  with py_max_spec [OF b] show ?thesis by blast
qed

theorem fallback_rule_witness:
  "length only_happy < 2 \<and> only_happy \<noteq> [] \<and>
   derive_three_class example_table (fresh (65/100)) only_happy = Inr (POSITIVE, 99/100)"
proof -
  have l: "length only_happy < 2" and n: "only_happy \<noteq> []" by (simp_all add: only_happy_def)
  have m: "map_label_to_persian example_table (str ''HAPPY'') = POSITIVE" by code_simp
  from fallback_rule [OF l n, where self = "fresh (65/100)" and u = example_table] l n m show ?thesis
    by (auto simp: only_happy_def)
qed

text \<open>
  C9. On every list with at least two entries the confidence returned is the larger of
  the first two scores, in each of the three branches: the positive branch returns
  \<open>pos_prob\<close> and has \<open>pos_prob \<ge> neg_prob\<close>, the negative branch returns \<open>neg_prob\<close>
  and has \<open>neg_prob > pos_prob\<close>, and the neutral branch takes the maximum itself.
\<close>

theorem confidence_is_max:
  assumes "2 \<le> length scores"
  shows "\<exists>c conf. derive_three_class u self scores = Inr (c, conf) \<and>
           conf = max (dict_score (scores ! 0)) (dict_score (scores ! 1)) \<and>
           (c = POSITIVE \<longrightarrow> neg_prob u scores \<le> pos_prob u scores \<and> conf = pos_prob u scores) \<and>
           (c = NEGATIVE \<longrightarrow> pos_prob u scores < neg_prob u scores \<and> conf = neg_prob u scores) \<and>
           (c = NEUTRAL \<longrightarrow> conf = max (pos_prob u scores) (neg_prob u scores))"
  using assms pos_neg_are_first_two [where scores = scores and u = u]
  by (auto simp: derive_three_class_two)

theorem confidence_is_max_witness:
  "2 \<le> length (sad_happy (8/10) (2/10)) \<and>
   (\<exists>c. derive_three_class example_table (fresh (65/100)) (sad_happy (8/10) (2/10)) = Inr (c, 8/10))"
proof -
  have l: "2 \<le> length (sad_happy (8/10) (2/10))" by (simp add: sad_happy_def)
  from confidence_is_max [OF l, where self = "fresh (65/100)" and u = example_table]
  obtain c conf
    where d: "derive_three_class example_table (fresh (65/100)) (sad_happy (8/10) (2/10)) = Inr (c, conf)"
      and m: "conf = max (dict_score (sad_happy (8/10) (2/10) ! 0)) (dict_score (sad_happy (8/10) (2/10) ! 1))"
    by blast
  from m have "conf = 8/10" by (simp add: sad_happy_def)
  with d l show ?thesis by blast
qed

text \<open>
  C10. On every list with at least one entry the rule returns a label and a confidence;
  on the empty list the fallback path raises the \<open>ValueError\<close> of \<open>max\<close> on an empty
  sequence rather than returning the neutral label.
\<close>

theorem derive_three_class_total:
  "(scores \<noteq> [] \<longrightarrow> (\<exists>c conf. derive_three_class u self scores = Inr (c, conf))) \<and>
   derive_three_class u self [] = Inl MaxOfEmpty"
  using derive_three_class_returns [where scores = scores and self = self and u = u]
  by (simp add: derive_three_class_def py_max_def)

theorem derive_three_class_total_witness:
  "only_happy \<noteq> [] \<and> (\<exists>c conf. derive_three_class example_table (fresh (65/100)) only_happy = Inr (c, conf)) \<and>
   derive_three_class example_table (fresh (65/100)) [] = Inl MaxOfEmpty"
proof -
  have n: "only_happy \<noteq> []" by (simp add: only_happy_def)
  with derive_three_class_total [where scores = only_happy and self = "fresh (65/100)"
      and u = example_table] show ?thesis by simp
qed

section \<open>The label mapping\<close>

text \<open>The search of \<open>in\<close> finds the needle exactly when it is a contiguous part of the haystack.\<close>

lemma py_in_sublist: "py_in needle haystack \<longleftrightarrow> sublist needle haystack"
proof
  assume "py_in needle haystack"
  then obtain i where t: "take (length needle) (drop i haystack) = needle"
    by (auto simp: py_in_def list_ex_iff)
  have "haystack = take i haystack @
      (take (length needle) (drop i haystack) @ drop (length needle) (drop i haystack))"
    by (simp only: append_take_drop_id)
  then have "haystack = take i haystack @ needle @ drop (length needle) (drop i haystack)"
    by (simp only: t)
  then show "sublist needle haystack" unfolding sublist_def by blast
next
  assume "sublist needle haystack"
  then obtain ps ss where h: "haystack = ps @ needle @ ss" unfolding sublist_def by blast
  have t: "take (length needle) (drop (length ps) haystack) = needle" by (simp add: h)
  have m: "length ps \<in> set [0 ..< Suc (length haystack)]" by (simp add: h)
  from t m show "py_in needle haystack"
    unfolding py_in_def list_ex_iff by blast
qed

text \<open>
  On a label of ASCII characters the case table is not consulted, and the uppercased
  label contains a keyword exactly when the label contains a piece that uppercases to
  the keyword: there the match is a substring match that ignores case. Beyond ASCII the
  uppercase mapping can lengthen the label and complete a keyword, as in \<open>po\<close> followed
  by U+00DF, which uppercases to \<open>POSS\<close>.
\<close>

lemma upper_ascii:
  assumes "\<forall>c \<in> set s. c < 128"
  shows "upper u s = map ascii_upper s"
  using assms by (induction s) (simp_all add: upper_def to_upper_full_def)

lemma ascii_match:
  assumes "\<forall>c \<in> set lbl. c < 128"
  shows "sublist k (upper u lbl) \<longleftrightarrow> (\<exists>w. sublist w lbl \<and> map ascii_upper w = k)"
proof
  assume "sublist k (upper u lbl)"
  then obtain ps ss where "map ascii_upper lbl = ps @ k @ ss"
    by (auto simp: sublist_def upper_ascii [OF assms])
  then obtain a r where l: "lbl = a @ r" and r: "k @ ss = map ascii_upper r"
    unfolding map_eq_append_conv by blast
  from r obtain w c where "r = w @ c" and "k = map ascii_upper w"
    unfolding append_eq_map_conv by blast
  with l have "lbl = a @ w @ c" and "map ascii_upper w = k" by simp_all
  then show "\<exists>w. sublist w lbl \<and> map ascii_upper w = k"
    by auto
next
  assume "\<exists>w. sublist w lbl \<and> map ascii_upper w = k"
  then obtain w where "sublist w lbl" and "map ascii_upper w = k" by blast
  then show "sublist k (upper u lbl)"
    unfolding upper_ascii [OF assms] by (auto dest: map_mono_sublist)
qed

lemma sharp_s_label:
  "upper example_table (str ''po'' @ [0xDF]) = str ''POSS''"
  "map_label_to_persian example_table (str ''po'' @ [0xDF]) = POSITIVE"
  by code_simp+

lemma overlap_label_any_table: "map_label_to_persian u (str ''NEG_OR_POS'') = POSITIVE"
proof -
  have "\<forall>c \<in> set (str ''NEG_OR_POS''). c < 128" by (simp add: str_def)
  from upper_ascii [OF this] have "upper u (str ''NEG_OR_POS'') = str ''NEG_OR_POS''"
    by (simp add: str_def ascii_upper_def)
  moreover have "py_in (str ''POS'') (str ''NEG_OR_POS'')" by code_simp
  ultimately show ?thesis by (simp add: map_label_to_persian_def)
qed

text \<open>
  C8, as the code has it. The mapping is a first-match chain on the uppercased label:
  the result is the positive label exactly when the uppercased label contains \<open>HAPPY\<close>
  or \<open>POS\<close> as a contiguous part; the negative label exactly when it contains neither
  of these and contains \<open>SAD\<close> or \<open>NEG\<close>; the neutral label exactly when it contains
  none of the four.
\<close>

theorem map_label_first_match:
  "(map_label_to_persian u lbl = POSITIVE \<longleftrightarrow>
      sublist (str ''HAPPY'') (upper u lbl) \<or> sublist (str ''POS'') (upper u lbl)) \<and>
   (map_label_to_persian u lbl = NEGATIVE \<longleftrightarrow>
      \<not> (sublist (str ''HAPPY'') (upper u lbl) \<or> sublist (str ''POS'') (upper u lbl)) \<and>
      (sublist (str ''SAD'') (upper u lbl) \<or> sublist (str ''NEG'') (upper u lbl))) \<and>
   (map_label_to_persian u lbl = NEUTRAL \<longleftrightarrow>
      \<not> (sublist (str ''HAPPY'') (upper u lbl) \<or> sublist (str ''POS'') (upper u lbl)) \<and>
      \<not> (sublist (str ''SAD'') (upper u lbl) \<or> sublist (str ''NEG'') (upper u lbl)))"
  by (simp add: map_label_to_persian_def py_in_sublist Let_def)

theorem map_label_first_match_witness:
  "sublist (str ''POS'') (upper example_table (str ''Positive'')) \<and>
   map_label_to_persian example_table (str ''Positive'') = POSITIVE \<and>
   \<not> (sublist (str ''HAPPY'') (upper example_table (str ''sadness'')) \<or>
      sublist (str ''POS'') (upper example_table (str ''sadness''))) \<and>
   sublist (str ''SAD'') (upper example_table (str ''sadness'')) \<and>
   map_label_to_persian example_table (str ''sadness'') = NEGATIVE \<and>
   \<not> (sublist (str ''HAPPY'') (upper example_table (str ''LABEL_1'')) \<or>
      sublist (str ''POS'') (upper example_table (str ''LABEL_1''))) \<and>
   \<not> (sublist (str ''SAD'') (upper example_table (str ''LABEL_1'')) \<or>
      sublist (str ''NEG'') (upper example_table (str ''LABEL_1''))) \<and>
   map_label_to_persian example_table (str ''LABEL_1'') = NEUTRAL \<and>
   sublist (str ''POS'') (upper example_table (str ''po'' @ [0xDF])) \<and>
   map_label_to_persian example_table (str ''po'' @ [0xDF]) = POSITIVE"
proof -
  have a: "sublist (str ''POS'') (upper example_table (str ''Positive''))" by code_simp
  have b: "\<not> (sublist (str ''HAPPY'') (upper example_table (str ''sadness'')) \<or>
      sublist (str ''POS'') (upper example_table (str ''sadness'')))"
    by code_simp
  have c: "sublist (str ''SAD'') (upper example_table (str ''sadness''))" by code_simp
  have d: "\<not> (sublist (str ''HAPPY'') (upper example_table (str ''LABEL_1'')) \<or>
      sublist (str ''POS'') (upper example_table (str ''LABEL_1'')))"
    by code_simp
  have e: "\<not> (sublist (str ''SAD'') (upper example_table (str ''LABEL_1'')) \<or>
      sublist (str ''NEG'') (upper example_table (str ''LABEL_1'')))"
    by code_simp
  have f: "sublist (str ''POS'') (upper example_table (str ''po'' @ [0xDF]))" by code_simp
  from map_label_first_match [where lbl = "str ''Positive''" and u = example_table]
    map_label_first_match [where lbl = "str ''sadness''" and u = example_table]
    map_label_first_match [where lbl = "str ''LABEL_1''" and u = example_table]
    map_label_first_match [where lbl = "str ''po'' @ [0xDF]" and u = example_table]
    a b c d e f
  show ?thesis by blast
qed

text \<open>
  A label that contains keywords of both sets is mapped to the positive label, so
  "negative whenever it contains \<open>SAD\<close> or \<open>NEG\<close>" does not hold of every label.
\<close>

theorem map_label_overlap_counterexample:
  "(sublist (str ''SAD'') (upper example_table (str ''NEG_OR_POS'')) \<or>
    sublist (str ''NEG'') (upper example_table (str ''NEG_OR_POS''))) \<and>
   map_label_to_persian example_table (str ''NEG_OR_POS'') \<noteq> NEGATIVE"
  by code_simp

section \<open>Validation of a single text\<close>

lemma strip_empty_iff: "strip s = [] \<longleftrightarrow> (\<forall>c \<in> set s. isspace c)"
proof -
  have "strip s = [] \<longleftrightarrow> (\<forall>c \<in> set (dropWhile isspace s). isspace c)"
    by (simp add: strip_def dropWhile_eq_Nil_conv)
  also have "\<dots> \<longleftrightarrow> (\<forall>c \<in> set s. isspace c)"
  proof
    assume a: "\<forall>c \<in> set (dropWhile isspace s). isspace c"
    have "dropWhile isspace s = []"
    proof (rule ccontr)
      assume n: "dropWhile isspace s \<noteq> []"
      then have "\<not> isspace (hd (dropWhile isspace s))" by (rule hd_dropWhile)
      moreover from n have "hd (dropWhile isspace s) \<in> set (dropWhile isspace s)" by simp
      ultimately show False using a by blast
    qed
    then show "\<forall>c \<in> set s. isspace c" by (simp add: dropWhile_eq_Nil_conv)
  next
    assume "\<forall>c \<in> set s. isspace c"
    then show "\<forall>c \<in> set (dropWhile isspace s). isspace c"
      by (blast dest: set_dropWhileD)
  qed
  finally show ?thesis .
qed

lemma blank_iff: "blank text \<longleftrightarrow> list_all isspace text"
  by (auto simp: blank_def strip_empty_iff list_all_iff)

lemma derive_three_class_error:
  "derive_three_class u self scores = Inl e \<Longrightarrow> e = MaxOfEmpty"
  by (auto simp: derive_three_class_def py_max_def Let_def split: if_splits list.splits prod.splits)

lemma pipeline_error: "pipeline p self = Inl e \<Longrightarrow> \<exists>c. e = ClassifierFailure c"
  by (auto simp: pipeline_def split: if_splits option.splits)

text \<open>
  C4. On a text that is empty or consists of whitespace only (every character is one of
  Python's whitespace characters, the no-break space and the ideographic space among
  them), \<open>predict\<close> raises the \<open>ValueError\<close> of line 124 and leaves the analyzer as
  it was: the pipeline has been neither loaded nor called. On a text with a character
  that is not whitespace it never raises that error, whatever the pipeline does.
\<close>

theorem predict_validation:
  "(list_all isspace input \<longrightarrow> predict u p self input max_length = (Inl EmptyInputText, self)) \<and>
   (\<not> list_all isspace input \<longrightarrow> fst (predict u p self input max_length) \<noteq> Inl EmptyInputText)"
proof (cases "blank input")
  case True
  then show ?thesis by (auto simp: predict_def blank_iff)
next
  case False
  then have "fst (predict u p self input max_length) \<noteq> Inl EmptyInputText"
    by (auto simp: predict_def Let_def split: sum.splits prod.splits
        dest: derive_three_class_error pipeline_error)
  with False show ?thesis by (auto simp: blank_iff)
qed

theorem predict_validation_witness:
  "list_all isspace spaces \<and>
   predict example_table example_port (fresh (65/100)) spaces 512 =
     (Inl EmptyInputText, fresh (65/100)) \<and>
   \<not> list_all isspace (str ''ok'') \<and>
   fst (predict example_table example_port (fresh (65/100)) (str ''ok'') 512) \<noteq> Inl EmptyInputText"
proof -
  have a: "list_all isspace spaces" by code_simp
  have b: "\<not> list_all isspace (str ''ok'')" by code_simp
  from predict_validation [where input = spaces and p = example_port
      and self = "fresh (65/100)" and max_length = 512 and u = example_table]
    predict_validation [where input = "str ''ok''" and p = example_port
      and self = "fresh (65/100)" and max_length = 512 and u = example_table] a b
  show ?thesis by blast
qed

section \<open>Batch prediction: the loops\<close>

lemma derive_three_class_cong:
  assumes "positive_threshold a = positive_threshold b"
    and "negative_threshold a = negative_threshold b"
  shows "derive_three_class u a scores = derive_three_class u b scores"
proof (cases "length scores < 2")
  case True
  then show ?thesis by (simp add: derive_three_class_def)
next
  case False
  then have "2 \<le> length scores" by simp
  with assms show ?thesis by (simp add: derive_three_class_two)
qed

lemma derive_all_run:
  assumes "\<forall>out \<in> set outs. out \<noteq> []"
  shows "\<exists>rs. derive_all u self lat outs results = Inr (results @ rs) \<and>
           map (\<lambda>r. Inr (label r, score r)) rs = map (derive_three_class u self) outs"
  using assms
proof (induction outs arbitrary: results)
  case Nil
  show ?case by simp
next
  case (Cons out outs)
  from Cons.prems have "out \<noteq> []" by simp
  from derive_three_class_returns [OF this] obtain c conf
    where d: "derive_three_class u self out = Inr (c, conf)" by blast
  let ?r = "\<lparr>label = c, score = conf, latency_ms = lat\<rparr>"
  from Cons.prems have "\<forall>out \<in> set outs. out \<noteq> []" by simp
  from Cons.IH [OF this, of "results @ [?r]"] obtain rs
    where run: "derive_all u self lat outs (results @ [?r]) = Inr ((results @ [?r]) @ rs)"
      and m: "map (\<lambda>r. Inr (label r, score r)) rs = map (derive_three_class u self) outs"
    by blast
  from d run have "derive_all u self lat (out # outs) results = Inr (results @ (?r # rs))"
    by simp
  moreover from d m
  have "map (\<lambda>r. Inr (label r, score r)) (?r # rs) = map (derive_three_class u self) (out # outs)"
    by simp
  ultimately show ?case by blast
qed

lemma pipeline_loads:
  assumes "from_pretrained p = None"
  shows "\<exists>self1. pipeline p self = Inr self1 \<and>
           positive_threshold self1 = positive_threshold self \<and>
           negative_threshold self1 = negative_threshold self \<and>
           invocations self1 = invocations self"
  using assms by (simp add: pipeline_def)

lemma batch_loop_run:
  assumes h: "honours p max_length clf"
  shows "\<exists>rs self'. batch_loop u p max_length batch_size clean_texts indices self results =
             (Inr (results @ rs), self') \<and>
           map (\<lambda>r. Inr (label r, score r)) rs =
             map (\<lambda>t. derive_three_class u self (clf t))
               (concat (map (\<lambda>i. py_slice clean_texts i (i + batch_size)) indices)) \<and>
           invocations self' =
             invocations self @ map (\<lambda>i. py_slice clean_texts i (i + batch_size)) indices \<and>
           positive_threshold self' = positive_threshold self \<and>
           negative_threshold self' = negative_threshold self"
proof (induction indices arbitrary: self results)
  case Nil
  show ?case by simp
next
  case (Cons i "is")
  let ?batch = "py_slice clean_texts i (i + batch_size)"
  from h have ld: "from_pretrained p = None" by (simp add: honours_def)
  from pipeline_loads [OF ld, of self] obtain self1
    where p1: "pipeline p self = Inr self1"
      and pt: "positive_threshold self1 = positive_threshold self"
      and nt: "negative_threshold self1 = negative_threshold self"
      and iv: "invocations self1 = invocations self"
    by blast
  let ?self2 = "log_call ?batch self1"
  have pt2: "positive_threshold ?self2 = positive_threshold self"
    and nt2: "negative_threshold ?self2 = negative_threshold self"
    and iv2: "invocations ?self2 = invocations self @ [?batch]"
    using pt nt iv by (simp_all add: log_call_def)
  from h obtain elapsed where call: "call_batch p ?batch max_length = Inr (map clf ?batch, elapsed)"
    unfolding honours_def by blast
  let ?lat = "elapsed * 1000 / real (max (length (map clf ?batch)) 1)"
  from h have "\<forall>out \<in> set (map clf ?batch). out \<noteq> []" by (simp add: honours_def)
  from derive_all_run [OF this, where self = ?self2 and lat = ?lat and results = results
      and u = u]
  obtain rs1
    where d: "derive_all u ?self2 ?lat (map clf ?batch) results = Inr (results @ rs1)"
      and m1: "map (\<lambda>r. Inr (label r, score r)) rs1 = map (derive_three_class u ?self2) (map clf ?batch)"
    by blast
  from Cons.IH [of ?self2 "results @ rs1"] obtain rs2 self'
    where run: "batch_loop u p max_length batch_size clean_texts is ?self2 (results @ rs1) =
                  (Inr ((results @ rs1) @ rs2), self')"
      and m2: "map (\<lambda>r. Inr (label r, score r)) rs2 =
                 map (\<lambda>t. derive_three_class u ?self2 (clf t))
                   (concat (map (\<lambda>i. py_slice clean_texts i (i + batch_size)) is))"
      and iv': "invocations self' =
                  invocations ?self2 @ map (\<lambda>i. py_slice clean_texts i (i + batch_size)) is"
      and pt': "positive_threshold self' = positive_threshold ?self2"
      and nt': "negative_threshold self' = negative_threshold ?self2"
    by blast
  have same: "derive_three_class u ?self2 = derive_three_class u self"
    using derive_three_class_cong [OF pt2 nt2] by blast
  have "batch_loop u p max_length batch_size clean_texts (i # is) self results =
          (Inr (results @ (rs1 @ rs2)), self')"
    using p1 call d run by (simp add: Let_def)
  moreover have "map (\<lambda>r. Inr (label r, score r)) (rs1 @ rs2) =
      map (\<lambda>t. derive_three_class u self (clf t))
        (concat (map (\<lambda>i. py_slice clean_texts i (i + batch_size)) (i # is)))"
    using m1 m2 same by (simp add: comp_def)
  moreover have "invocations self' =
      invocations self @ map (\<lambda>i. py_slice clean_texts i (i + batch_size)) (i # is)"
    using iv' iv2 by simp
  ultimately show ?case using pt' nt' pt2 nt2 by auto
qed


lemma py_slice_chunk:
  "py_slice xs (int k * int b) (int k * int b + int b) = take b (drop (k * b) xs)"
proof -
  have bound: "slice_bound n (int j) = min n j" for n j
    by (simp add: slice_bound_def)
  have "int k * int b = int (k * b)" by simp
  then have a: "slice_bound (length xs) (int k * int b) = min (length xs) (k * b)"
    by (simp only: bound)
  have "int k * int b + int b = int (k * b + b)" by simp
  then have c: "slice_bound (length xs) (int k * int b + int b) = min (length xs) (k * b + b)"
    by (simp only: bound)
  show ?thesis
  proof (cases "k * b < length xs")
    case True
    then show ?thesis
      unfolding py_slice_def a c Let_def by (auto simp: min_def)
  next
    case False
    then show ?thesis
      unfolding py_slice_def a c Let_def by simp
  qed
qed

lemma concat_chunks:
  "concat (map (\<lambda>k. take b (drop (k * b) xs)) [0 ..< m]) = take (m * b) xs"
proof (induction m)
  case 0
  show ?case by simp
next
  case (Suc m)
  have "take (Suc m * b) xs = take (m * b) xs @ take b (drop (m * b) xs)"
    using take_add [of "m * b" b xs] by (simp add: add.commute)
  with Suc show ?case by simp
qed

lemma ceil_div_cover:
  assumes "0 < (b::nat)"
  shows "(n::nat) \<le> ((n + b - 1) div b) * b"
proof -
  have "(n + b - 1) div b * b + (n + b - 1) mod b = n + b - 1" by simp
  moreover from assms have "(n + b - 1) mod b < b" by simp
  ultimately show ?thesis by linarith
qed

lemma ceil_div_tight:
  assumes "0 < (b::nat)" and "(k::nat) < (n + b - 1) div b"
  shows "k * b < (n::nat)"
proof -
  from assms(2) have "Suc k \<le> (n + b - 1) div b" by simp
  then have "Suc k * b \<le> (n + b - 1) div b * b" by (rule mult_le_mono1)
  also have "\<dots> \<le> n + b - 1" by simp
  finally have "k * b + b \<le> n + b - 1" by simp
  with assms(1) show ?thesis by linarith
qed

lemma py_range_chunks:
  assumes "0 < b" and "0 < n"
  shows "py_range 0 (int n) (int b) = Inr (map (\<lambda>k. int k * int b) [0 ..< (n + b - 1) div b])"
proof -
  from assms have "int n + int b - 1 = int (n + b - 1)" by linarith
  then have "(int n + int b - 1) div int b = int ((n + b - 1) div b)"
    by (simp only: zdiv_int)
  then have "nat ((int n - 0 + int b - 1) div int b) = (n + b - 1) div b"
    by simp
  with assms(1) show ?thesis by (simp add: py_range_def)
qed



lemma batch_predict_run:
  assumes pos: "0 < batch_size"
    and h: "honours p max_length clf"
    and cl: "clean = filter (\<lambda>t. \<not> blank t) texts"
    and ne: "clean \<noteq> []"
  shows "\<exists>rs self' chunks.
           batch_predict u p self texts max_length batch_size = (Inr rs, self') \<and>
           invocations self' = invocations self @ chunks \<and>
           concat chunks = clean \<and>
           (\<forall>c \<in> set chunks. c \<noteq> [] \<and> int (length c) \<le> batch_size) \<and>
           map (\<lambda>r. Inr (label r, score r)) rs = map (\<lambda>t. derive_three_class u self (clf t)) clean"
proof -
  define b where "b = nat batch_size"
  with pos have bs: "batch_size = int b" and b0: "0 < b" by simp_all
  let ?n = "length clean"
  let ?m = "(?n + b - 1) div b"
  let ?idx = "map (\<lambda>k. int k * int b) [0 ..< ?m]"
  let ?chunks = "map (\<lambda>i. py_slice clean i (i + batch_size)) ?idx"
  from ne have n0: "0 < ?n" by simp
  have range: "py_range 0 (int ?n) batch_size = Inr ?idx"
    unfolding bs by (rule py_range_chunks [OF b0 n0])
  have chunks: "?chunks = map (\<lambda>k. take b (drop (k * b) clean)) [0 ..< ?m]"
    by (simp add: bs py_slice_chunk comp_def)
  have "concat ?chunks = take (?m * b) clean"
    unfolding chunks by (rule concat_chunks)
  with ceil_div_cover [OF b0, of ?n] have cover: "concat ?chunks = clean" by simp
  have sizes: "\<forall>c \<in> set ?chunks. c \<noteq> [] \<and> int (length c) \<le> batch_size"
  proof
    fix c assume "c \<in> set ?chunks"
    then obtain k where k: "k < ?m" and c: "c = take b (drop (k * b) clean)"
      unfolding chunks by auto
    from ceil_div_tight [OF b0 k] have "k * b < ?n" .
    with b0 c show "c \<noteq> [] \<and> int (length c) \<le> batch_size"
      by (simp add: bs)
  qed
  from batch_loop_run [OF h, where batch_size = batch_size and clean_texts = clean
      and indices = ?idx and self = self and results = "[]" and u = u]
  obtain rs self'
    where run: "batch_loop u p max_length batch_size clean ?idx self [] = (Inr ([] @ rs), self')"
      and m: "map (\<lambda>r. Inr (label r, score r)) rs =
                map (\<lambda>t. derive_three_class u self (clf t)) (concat ?chunks)"
      and iv: "invocations self' = invocations self @ ?chunks"
    by blast
  have "batch_predict u p self texts max_length batch_size = (Inr rs, self')"
    using ne run range by (simp add: batch_predict_def cl [symmetric])
  with iv cover sizes m show ?thesis
    by (intro exI [of _ rs] exI [of _ self'] exI [of _ ?chunks]) (simp only: simp_thms)
qed

lemma example_port_honours: "honours example_port max_length example_clf"
proof -
  have "call_batch example_port batch max_length = Inr (map example_clf batch, 4/1000)" for batch
    by (simp add: example_port_def)
  then have "\<forall>batch. \<exists>elapsed. call_batch example_port batch max_length =
      Inr (map example_clf batch, elapsed)" by blast
  moreover have "from_pretrained example_port = None" by (simp add: example_port_def)
  moreover have "\<forall>t. example_clf t \<noteq> []"
    by (simp add: example_clf_def happy_sad_def sad_happy_def)
  ultimately show ?thesis unfolding honours_def by blast
qed




text \<open>
  C6. For a positive batch size and a pipeline that honours its contract, the calls that
  \<open>batch_predict\<close> makes are on consecutive chunks of the filtered list, none empty and
  none longer than the batch size, whose concatenation is the filtered list; and the
  results are, in the order of the filtered list, what the decision rule says of each
  text's classifier output.
\<close>

theorem batch_predict_order:
  assumes "0 < batch_size"
    and "honours p max_length clf"
    and "filter (\<lambda>t. \<not> blank t) texts \<noteq> []"
  shows "\<exists>rs self' chunks.
           batch_predict u p self texts max_length batch_size = (Inr rs, self') \<and>
           invocations self' = invocations self @ chunks \<and>
           concat chunks = filter (\<lambda>t. \<not> blank t) texts \<and>
           (\<forall>c \<in> set chunks. c \<noteq> [] \<and> int (length c) \<le> batch_size) \<and>
           map (\<lambda>r. Inr (label r, score r)) rs =
             map (\<lambda>t. derive_three_class u self (clf t)) (filter (\<lambda>t. \<not> blank t) texts)"
  using batch_predict_run [OF assms(1,2) refl assms(3), where self = self and u = u] .

theorem batch_predict_order_witness:
  "(0::int) < 2 \<and> honours example_port 512 example_clf \<and>
   filter (\<lambda>t. \<not> blank t) [str ''a'', str ''bad'', nbsp, str ''c''] =
     [str ''a'', str ''bad'', str ''c''] \<and>
   (\<exists>rs self'. batch_predict example_table example_port (fresh (65/100))
        [str ''a'', str ''bad'', nbsp, str ''c''] 512 2 = (Inr rs, self') \<and>
      invocations self' = [[str ''a'', str ''bad''], [str ''c'']] \<and>
      map (\<lambda>r. (label r, score r)) rs = [(POSITIVE, 9/10), (NEGATIVE, 8/10), (POSITIVE, 9/10)])"
proof -
  let ?texts = "[str ''a'', str ''bad'', nbsp, str ''c'']"
  let ?clean = "[str ''a'', str ''bad'', str ''c'']"
  have f: "filter (\<lambda>t. \<not> blank t) ?texts = ?clean" by code_simp
  note h = example_port_honours [of 512]
  have d: "map (\<lambda>t. derive_three_class example_table (fresh (65/100)) (example_clf t)) ?clean =
      [Inr (POSITIVE, 9/10), Inr (NEGATIVE, 8/10), Inr (POSITIVE, 9/10)]" by code_simp
  have ne: "filter (\<lambda>t. \<not> blank t) ?texts \<noteq> []" unfolding f by simp
  have pos: "(0::int) < 2" by simp
  from batch_predict_order [OF pos h ne, where self = "fresh (65/100)" and u = example_table]
  obtain rs self' chunks
    where r: "batch_predict example_table example_port (fresh (65/100)) ?texts 512 2 = (Inr rs, self')"
      and m: "map (\<lambda>r. Inr (label r, score r)) rs =
               map (\<lambda>t. derive_three_class example_table (fresh (65/100)) (example_clf t))
                 (filter (\<lambda>t. \<not> blank t) ?texts)"
    by auto
  have run: "snd (batch_predict example_table example_port (fresh (65/100)) ?texts 512 2) =
      \<lparr>positive_threshold = 65/100, negative_threshold = 65/100, pipeline_loaded = True,
        invocations = [?clean ! 0 # [?clean ! 1], [?clean ! 2]]\<rparr>" by code_simp
  from m have "map (\<lambda>r. (Inr (label r, score r) :: error + category \<times> real)) rs =
      [Inr (POSITIVE, 9/10), Inr (NEGATIVE, 8/10), Inr (POSITIVE, 9/10)]"
    by (simp only: f d)
  then have "map (\<lambda>r. (label r, score r)) rs = [(POSITIVE, 9/10), (NEGATIVE, 8/10), (POSITIVE, 9/10)]"
    by (auto simp: map_eq_Cons_conv)
  moreover from r run have "invocations self' = [[str ''a'', str ''bad''], [str ''c'']]" by simp
  ultimately show ?thesis using r f h by simp
qed

end
